theory Spec2Isabelle
  imports Main "HOL-Library.Word"
begin

section \<open>DebtBook\_Z: a confidential debt ledger on encrypted amounts\<close>

text \<open>
  A shallow embedding of the Solidity contract \<^verbatim>\<open>DebtBook_Z\<close>. Every external function of the
  contract is a HOL function on the contract's storage; a failed \<^verbatim>\<open>require\<close> is a value that
  carries the storage as it stood when the check failed, and a transaction applies the rollback
  of the EVM on top of that.
\<close>

subsection \<open>Solidity value types\<close>

type_synonym bytes = "8 word list"
type_synonym bytes32 = "256 word"
type_synonym uint32 = "32 word"
type_synonym uint256 = "256 word"

text \<open>\<^verbatim>\<open>euint32\<close> and \<^verbatim>\<open>externalEuint32\<close> are user-defined value types over \<^verbatim>\<open>bytes32\<close>:
  an encrypted amount is an opaque 32-byte handle.\<close>

type_synonym euint32 = bytes32
type_synonym externalEuint32 = bytes32

text \<open>A Solidity \<^verbatim>\<open>string\<close> is a byte sequence; \<^typ>\<open>string\<close> is a list of 8-bit characters.\<close>

subsection \<open>Hashing\<close>

text \<open>
  \<^verbatim>\<open>keccak256\<close> is taken to be free of collisions: a digest is a constructor applied to the
  hashed bytes, so two digests are equal exactly when the hashed byte sequences are. The storage
  mappings keyed by \<^verbatim>\<open>string\<close> rest on the same assumption.
  \<^verbatim>\<open>abi.encodePacked\<close> of a single string is the string's bytes.
\<close>

datatype digest = Digest string

definition abi_encodePacked :: "string \<Rightarrow> string" where
  "abi_encodePacked a = a"

definition keccak256 :: "string \<Rightarrow> digest" where
  "keccak256 bs = Digest bs"

definition compareStrings :: "string \<Rightarrow> string \<Rightarrow> bool" where
  "compareStrings a b = (keccak256 (abi_encodePacked a) = keccak256 (abi_encodePacked b))"

subsection \<open>ABI decoding\<close>

text \<open>
  \<^verbatim>\<open>abi.decode(data, (uint32))\<close>: reads the first 32-byte word of the data as a big-endian
  number and reverts when the data is shorter than one word or the number does not fit in
  32 bits. \<open>None\<close> is the revert.
\<close>

definition be_uint :: "bytes \<Rightarrow> nat" where
  "be_uint bs = foldl (\<lambda>acc b. 256 * acc + unat b) 0 bs"

definition abi_decode_uint32 :: "bytes \<Rightarrow> uint32 option" where
  "abi_decode_uint32 dat =
     (if length dat < 32 then None
      else let v = be_uint (take 32 dat)
           in if v < 2 ^ 32 then Some (word_of_nat v) else None)"

subsection \<open>The FHE library\<close>

text \<open>
  The library \<^verbatim>\<open>@fhevm/solidity/lib/FHE.sol\<close> is not part of the repository; the contract is
  verified for any implementation of the functions it calls. Handles are computed from handles:
  the arithmetic is a function of its operands. \<open>FHE_fromExternal\<close> returns \<open>None\<close> and
  \<open>FHE_checkSignatures\<close> returns \<open>False\<close> where the library reverts.
\<close>

record FHE =
  FHE_fromExternal :: "externalEuint32 \<Rightarrow> bytes \<Rightarrow> euint32 option"
  FHE_isInitialized :: "euint32 \<Rightarrow> bool"
  FHE_zero :: "euint32"
  FHE_add :: "euint32 \<Rightarrow> euint32 \<Rightarrow> euint32"
  FHE_sub :: "euint32 \<Rightarrow> euint32 \<Rightarrow> euint32"
  FHE_toBytes32 :: "euint32 \<Rightarrow> bytes32"
  FHE_checkSignatures :: "bytes32 list \<Rightarrow> bytes \<Rightarrow> bytes \<Rightarrow> bool"

subsection \<open>Storage\<close>

record DebtEntry =
  creditor :: string
  debtor :: string
  encryptedAmount :: euint32
  timestamp :: uint256
  decryptedAmount :: uint32
  isVerified :: bool

text \<open>The value a storage mapping holds at a key that was never written.\<close>

definition emptyEntry :: DebtEntry where
  "emptyEntry = \<lparr>creditor = [], debtor = [], encryptedAmount = 0, timestamp = 0,
                 decryptedAmount = 0, isVerified = False\<rparr>"

datatype event =
    DebtRecorded string string string
  | DecryptionVerified string uint32
  | NetBalanceUpdated string euint32

text \<open>
  The four storage variables of the contract, the two permission tables the contract writes in
  the access-control list (\<^verbatim>\<open>FHE.allowThis\<close>, \<^verbatim>\<open>FHE.makePubliclyDecryptable\<close>), and the log of
  emitted events. A Solidity mapping is total: it holds the zero value at every unwritten key.
  The contract holds a permission on every handle it passes to the two permission calls (the
  handle comes from \<^verbatim>\<open>FHE.fromExternal\<close>, from the arithmetic, or from an entry it has allowed
  itself), so they are writes that do not revert. Gas is not modelled: a call is given the gas
  it needs.
\<close>

record DebtBook_Z =
  debtEntries :: "string \<Rightarrow> DebtEntry"
  netBalances :: "string \<Rightarrow> euint32"
  entryIds :: "string list"
  participantIds :: "string list"
  aclAllowedThis :: "euint32 set"
  aclPubliclyDecryptable :: "euint32 set"
  eventLog :: "event list"

text \<open>The contract after its (empty) constructor.\<close>

definition deployed :: DebtBook_Z where
  "deployed = \<lparr>debtEntries = (\<lambda>_. emptyEntry), netBalances = (\<lambda>_. 0), entryIds = [],
               participantIds = [], aclAllowedThis = {}, aclPubliclyDecryptable = {},
               eventLog = []\<rparr>"

datatype error =
    DuplicateEntry      \<comment> \<open>"Entry ID already exists"\<close>
  | SelfDebt            \<comment> \<open>"Creditor and debtor cannot be the same"\<close>
  | InvalidCiphertext   \<comment> \<open>\<^verbatim>\<open>FHE.fromExternal\<close> reverts, or "Invalid encrypted amount"\<close>
  | NotFound            \<comment> \<open>"Debt entry does not exist", "Participant not found"\<close>
  | AlreadyVerified     \<comment> \<open>"Debt already verified"\<close>
  | InvalidProof        \<comment> \<open>\<^verbatim>\<open>FHE.checkSignatures\<close> reverts\<close>
  | AbiDecodeFailure    \<comment> \<open>\<^verbatim>\<open>abi.decode\<close> reverts\<close>

text \<open>
  The outcome of running the body of an external function: \<open>Revert e s'\<close> when a check fails,
  with \<open>s'\<close> the storage at that moment (before the EVM rolls the transaction back), and
  \<open>Success s'\<close> with the storage at the end.
\<close>

datatype outcome = Revert error DebtBook_Z | Success DebtBook_Z

subsection \<open>Internal functions\<close>

fun participantExists_loop :: "string list \<Rightarrow> string \<Rightarrow> bool" where
  "participantExists_loop [] participantId = False"
| "participantExists_loop (p # ps) participantId =
     (if compareStrings p participantId then True else participantExists_loop ps participantId)"

definition participantExists :: "DebtBook_Z \<Rightarrow> string \<Rightarrow> bool" where
  "participantExists s participantId = participantExists_loop (participantIds s) participantId"

definition updateParticipantList :: "DebtBook_Z \<Rightarrow> string \<Rightarrow> DebtBook_Z" where
  "updateParticipantList s participantId =
     (if \<not> participantExists s participantId
      then s\<lparr>participantIds := participantIds s @ [participantId]\<rparr>
      else s)"

definition allowThis :: "DebtBook_Z \<Rightarrow> euint32 \<Rightarrow> DebtBook_Z" where
  "allowThis s h = s\<lparr>aclAllowedThis := insert h (aclAllowedThis s)\<rparr>"

definition makePubliclyDecryptable :: "DebtBook_Z \<Rightarrow> euint32 \<Rightarrow> DebtBook_Z" where
  "makePubliclyDecryptable s h = s\<lparr>aclPubliclyDecryptable := insert h (aclPubliclyDecryptable s)\<rparr>"

subsection \<open>recordDebt\<close>

text \<open>The last argument is \<^verbatim>\<open>block.timestamp\<close>.\<close>

definition recordDebt ::
  "FHE \<Rightarrow> DebtBook_Z \<Rightarrow> string \<Rightarrow> string \<Rightarrow> string \<Rightarrow> externalEuint32 \<Rightarrow> bytes \<Rightarrow> uint256 \<Rightarrow> outcome"
where
  "recordDebt fhe s entryId creditorId debtorId extAmount inputProof now =
     (if \<not> (length (creditor (debtEntries s entryId)) = 0) then Revert DuplicateEntry s
      else if compareStrings creditorId debtorId then Revert SelfDebt s
      else case FHE_fromExternal fhe extAmount inputProof of
        None \<Rightarrow> Revert InvalidCiphertext s
      | Some amount \<Rightarrow>
          if \<not> FHE_isInitialized fhe amount then Revert InvalidCiphertext s
          else
            let s1 = s\<lparr>debtEntries := (debtEntries s)(entryId :=
                        \<lparr>creditor = creditorId, debtor = debtorId, encryptedAmount = amount,
                         timestamp = now, decryptedAmount = 0, isVerified = False\<rparr>)\<rparr>;
                s2 = allowThis s1 (encryptedAmount (debtEntries s1 entryId));
                s3 = makePubliclyDecryptable s2 (encryptedAmount (debtEntries s2 entryId));
                s4 = updateParticipantList s3 creditorId;
                s5 = updateParticipantList s4 debtorId;
                s6 = s5\<lparr>entryIds := entryIds s5 @ [entryId]\<rparr>
            in Success (s6\<lparr>eventLog := eventLog s6 @ [DebtRecorded entryId creditorId debtorId]\<rparr>))"

subsection \<open>verifyDecryption\<close>

definition verifyDecryption :: "FHE \<Rightarrow> DebtBook_Z \<Rightarrow> string \<Rightarrow> bytes \<Rightarrow> bytes \<Rightarrow> outcome" where
  "verifyDecryption fhe s entryId abiEncodedClearAmount decryptionProof =
     (if \<not> (length (creditor (debtEntries s entryId)) > 0) then Revert NotFound s
      else if isVerified (debtEntries s entryId) then Revert AlreadyVerified s
      else
        let cts = [FHE_toBytes32 fhe (encryptedAmount (debtEntries s entryId))]
        in if \<not> FHE_checkSignatures fhe cts abiEncodedClearAmount decryptionProof
           then Revert InvalidProof s
           else case abi_decode_uint32 abiEncodedClearAmount of
             None \<Rightarrow> Revert AbiDecodeFailure s
           | Some decodedAmount \<Rightarrow>
               let s1 = s\<lparr>debtEntries := (debtEntries s)(entryId :=
                           (debtEntries s entryId)\<lparr>decryptedAmount := decodedAmount\<rparr>)\<rparr>;
                   s2 = s1\<lparr>debtEntries := (debtEntries s1)(entryId :=
                           (debtEntries s1 entryId)\<lparr>isVerified := True\<rparr>)\<rparr>
               in Success (s2\<lparr>eventLog := eventLog s2 @ [DecryptionVerified entryId decodedAmount]\<rparr>))"

subsection \<open>computeNetBalance\<close>

text \<open>
  The loop over \<^verbatim>\<open>entryIds\<close>, with the loop state \<open>(balance, firstEntry)\<close>. Both tests are made
  on every entry, one after the other, as in the source.
\<close>

fun computeNetBalance_loop ::
  "FHE \<Rightarrow> (string \<Rightarrow> DebtEntry) \<Rightarrow> string \<Rightarrow> string list \<Rightarrow> euint32 \<times> bool \<Rightarrow> euint32 \<times> bool"
where
  "computeNetBalance_loop fhe entries participantId [] (balance, firstEntry) = (balance, firstEntry)"
| "computeNetBalance_loop fhe entries participantId (i # ids) (balance, firstEntry) =
     (let entry = entries i;
          (balance1, firstEntry1) =
            (if compareStrings (creditor entry) participantId
             then (if firstEntry then encryptedAmount entry
                   else FHE_add fhe balance (encryptedAmount entry), False)
             else (balance, firstEntry));
          (balance2, firstEntry2) =
            (if compareStrings (debtor entry) participantId
             then (if firstEntry1 then FHE_sub fhe (FHE_zero fhe) (encryptedAmount entry)
                   else FHE_sub fhe balance1 (encryptedAmount entry), False)
             else (balance1, firstEntry1))
      in computeNetBalance_loop fhe entries participantId ids (balance2, firstEntry2))"

definition computeNetBalance :: "FHE \<Rightarrow> DebtBook_Z \<Rightarrow> string \<Rightarrow> outcome" where
  "computeNetBalance fhe s participantId =
     (if \<not> participantExists s participantId then Revert NotFound s
      else
        let balance = fst (computeNetBalance_loop fhe (debtEntries s) participantId (entryIds s)
                             (FHE_zero fhe, True));
            s1 = s\<lparr>netBalances := (netBalances s)(participantId := balance)\<rparr>;
            s2 = allowThis s1 (netBalances s1 participantId);
            s3 = makePubliclyDecryptable s2 (netBalances s2 participantId)
        in Success (s3\<lparr>eventLog := eventLog s3 @ [NetBalanceUpdated participantId balance]\<rparr>))"

subsection \<open>Views\<close>

definition getDebtEntry ::
  "DebtBook_Z \<Rightarrow> string \<Rightarrow> error + (string \<times> string \<times> uint256 \<times> bool \<times> uint32)" where
  "getDebtEntry s entryId =
     (if \<not> (length (creditor (debtEntries s entryId)) > 0) then Inl NotFound
      else let entry = debtEntries s entryId
           in Inr (creditor entry, debtor entry, timestamp entry, isVerified entry,
                   decryptedAmount entry))"

definition getNetBalance :: "DebtBook_Z \<Rightarrow> string \<Rightarrow> error + euint32" where
  "getNetBalance s participantId =
     (if \<not> participantExists s participantId then Inl NotFound
      else Inr (netBalances s participantId))"

definition getAllEntryIds :: "DebtBook_Z \<Rightarrow> string list" where
  "getAllEntryIds s = entryIds s"

definition getAllParticipantIds :: "DebtBook_Z \<Rightarrow> string list" where
  "getAllParticipantIds s = participantIds s"

definition isAvailable :: bool where
  "isAvailable = True"

subsection \<open>Transactions\<close>

text \<open>
  A call of one of the three state-changing functions. \<open>RecordDebt\<close> carries the timestamp of
  the block the call is mined in.
\<close>

datatype call =
    RecordDebt string string string externalEuint32 bytes uint256
  | VerifyDecryption string bytes bytes
  | ComputeNetBalance string

fun exec :: "FHE \<Rightarrow> DebtBook_Z \<Rightarrow> call \<Rightarrow> outcome" where
  "exec fhe s (RecordDebt entryId creditorId debtorId extAmount inputProof now) =
     recordDebt fhe s entryId creditorId debtorId extAmount inputProof now"
| "exec fhe s (VerifyDecryption entryId abiEncodedClearAmount decryptionProof) =
     verifyDecryption fhe s entryId abiEncodedClearAmount decryptionProof"
| "exec fhe s (ComputeNetBalance participantId) = computeNetBalance fhe s participantId"

text \<open>A transaction that reverts is rolled back: the storage is the one before the call.\<close>

definition transact :: "FHE \<Rightarrow> DebtBook_Z \<Rightarrow> call \<Rightarrow> DebtBook_Z" where
  "transact fhe s c = (case exec fhe s c of Revert e s' \<Rightarrow> s | Success s' \<Rightarrow> s')"

fun run :: "FHE \<Rightarrow> DebtBook_Z \<Rightarrow> call list \<Rightarrow> DebtBook_Z" where
  "run fhe s [] = s"
| "run fhe s (c # cs) = run fhe (transact fhe s c) cs"

subsection \<open>Histories\<close>

text \<open>
  The participant identifiers named by the entries that a history of calls records, in the
  order in which they are named: for each \<^verbatim>\<open>recordDebt\<close> that succeeds, its creditor and then its
  debtor. A call that reverts records nothing.
\<close>

fun appearances :: "FHE \<Rightarrow> DebtBook_Z \<Rightarrow> call list \<Rightarrow> string list" where
  "appearances fhe s [] = []"
| "appearances fhe s (c # cs) =
     (case c of
        RecordDebt entryId creditorId debtorId extAmount inputProof now \<Rightarrow>
          (case exec fhe s c of Success s' \<Rightarrow> [creditorId, debtorId] | Revert e s' \<Rightarrow> [])
      | VerifyDecryption entryId abiEncodedClearAmount decryptionProof \<Rightarrow> []
      | ComputeNetBalance participantId \<Rightarrow> [])
     @ appearances fhe (transact fhe s c) cs"

text \<open>A sequence reduced to the first occurrence of each of its elements, order kept.\<close>

fun first_seen :: "'a list \<Rightarrow> 'a list" where
  "first_seen [] = []"
| "first_seen (x # xs) = x # first_seen (removeAll x xs)"

subsection \<open>The aggregation as the specification words it\<close>

text \<open>
  The running accumulator of the specification: \<open>None\<close> while no contribution has been found.
  An entry whose creditor is the participant adds its ciphertext, an entry whose debtor is the
  participant subtracts it, any other entry is skipped.
\<close>

fun fold_contributions :: "FHE \<Rightarrow> string \<Rightarrow> DebtEntry list \<Rightarrow> euint32 option \<Rightarrow> euint32 option" where
  "fold_contributions fhe participantId [] acc = acc"
| "fold_contributions fhe participantId (e # es) acc =
     fold_contributions fhe participantId es
       (if creditor e = participantId then
          (case acc of None \<Rightarrow> Some (encryptedAmount e)
                     | Some a \<Rightarrow> Some (FHE_add fhe a (encryptedAmount e)))
        else if debtor e = participantId then
          (case acc of None \<Rightarrow> Some (FHE_sub fhe (FHE_zero fhe) (encryptedAmount e))
                     | Some a \<Rightarrow> Some (FHE_sub fhe a (encryptedAmount e)))
        else acc)"

text \<open>The entry log read in log order; an accumulator without contribution is the encrypted zero.\<close>

definition netBalance_spec :: "FHE \<Rightarrow> DebtBook_Z \<Rightarrow> string \<Rightarrow> euint32" where
  "netBalance_spec fhe s participantId =
     (case fold_contributions fhe participantId (map (debtEntries s) (entryIds s)) None of
        None \<Rightarrow> FHE_zero fhe
      | Some a \<Rightarrow> a)"

subsection \<open>A stand-in for the FHE library\<close>

text \<open>
  An implementation of the library functions on which the contract can be run on concrete
  calls: an input is accepted when its proof is not empty, a handle is initialised when it is
  not zero, and the arithmetic mixes the operand handles.
\<close>

definition testFHE :: FHE where
  "testFHE = \<lparr>FHE_fromExternal = (\<lambda>h inputProof. if inputProof = [] then None else Some h),
              FHE_isInitialized = (\<lambda>h. h \<noteq> 0),
              FHE_zero = 1,
              FHE_add = (\<lambda>a b. 3 * a + 5 * b + 7),
              FHE_sub = (\<lambda>a b. 11 * a + 13 * b + 17),
              FHE_toBytes32 = (\<lambda>h. h),
              FHE_checkSignatures = (\<lambda>cts clear decryptionProof. decryptionProof \<noteq> [])\<rparr>"

subsection \<open>Invariant of the storage\<close>

text \<open>
  What every reachable storage satisfies: the registry has no duplicates, every logged entry
  has two different parties, and a verified entry has a creditor.
\<close>

definition ledger_inv :: "DebtBook_Z \<Rightarrow> bool" where
  "ledger_inv s \<longleftrightarrow>
     distinct (participantIds s) \<and>
     (\<forall>i \<in> set (entryIds s). creditor (debtEntries s i) \<noteq> debtor (debtEntries s i)) \<and>
     (\<forall>i. isVerified (debtEntries s i) \<longrightarrow> creditor (debtEntries s i) \<noteq> [])"

subsection \<open>A sample history\<close>

text \<open>Three debts among alice, bob and carol, each with an accepted ciphertext.\<close>

definition sample_history :: "call list" where
  "sample_history =
     [RecordDebt ''e1'' ''alice'' ''bob'' 5 [1] 100,
      RecordDebt ''e2'' ''bob'' ''carol'' 7 [1] 200,
      RecordDebt ''e3'' ''carol'' ''bob'' 9 [1] 300]"

section \<open>Basic facts\<close>

lemma compareStrings_iff [simp]: "compareStrings a b \<longleftrightarrow> a = b"
  by (simp add: compareStrings_def keccak256_def abi_encodePacked_def)

lemma participantExists_loop_iff [simp]: "participantExists_loop ps p \<longleftrightarrow> p \<in> set ps"
  by (induction ps) auto

lemma participantExists_iff [simp]: "participantExists s p \<longleftrightarrow> p \<in> set (participantIds s)"
  by (simp add: participantExists_def)

lemma be_uint_zeros: "foldl (\<lambda>acc b. 256 * acc + unat (b::8 word)) 0 (replicate n 0) = 0"
  by (induction n) auto

lemma abi_decode_42: "abi_decode_uint32 (replicate 31 0 @ [42]) = Some 42"
  by (simp add: abi_decode_uint32_def be_uint_def be_uint_zeros)

lemmas contract_defs =
  recordDebt_def verifyDecryption_def computeNetBalance_def transact_def
  allowThis_def makePubliclyDecryptable_def updateParticipantList_def

lemmas test_defs = contract_defs testFHE_def deployed_def emptyEntry_def

subsection \<open>What a successful call writes\<close>

lemma recordDebt_Success:
  assumes "recordDebt fhe s i c d x pr t = Success s'"
  shows "creditor (debtEntries s i) = []" and "c \<noteq> d"
    and "\<exists>amount. FHE_fromExternal fhe x pr = Some amount \<and> FHE_isInitialized fhe amount \<and>
           debtEntries s' = (debtEntries s)(i := \<lparr>creditor = c, debtor = d,
             encryptedAmount = amount, timestamp = t, decryptedAmount = 0, isVerified = False\<rparr>)"
    and "entryIds s' = entryIds s @ [i]"
    and "participantIds s' =
           (let ps = (if c \<in> set (participantIds s) then participantIds s else participantIds s @ [c])
            in if d \<in> set ps then ps else ps @ [d])"
    and "netBalances s' = netBalances s"
    and "eventLog s' = eventLog s @ [DebtRecorded i c d]"
  using assms
  by (auto simp: recordDebt_def allowThis_def makePubliclyDecryptable_def
      updateParticipantList_def Let_def split: if_splits option.splits)

lemma verifyDecryption_Success:
  assumes "verifyDecryption fhe s i a pr = Success s'"
  shows "creditor (debtEntries s i) \<noteq> []" and "\<not> isVerified (debtEntries s i)"
    and "\<exists>v. abi_decode_uint32 a = Some v \<and>
           debtEntries s' = (debtEntries s)(i := (debtEntries s i)\<lparr>decryptedAmount := v, isVerified := True\<rparr>)"
    and "entryIds s' = entryIds s" and "participantIds s' = participantIds s"
    and "netBalances s' = netBalances s"
  using assms
  by (auto simp: verifyDecryption_def Let_def split: if_splits option.splits)

lemma computeNetBalance_Success:
  assumes "computeNetBalance fhe s p = Success s'"
  shows "p \<in> set (participantIds s)"
    and "debtEntries s' = debtEntries s" and "entryIds s' = entryIds s"
    and "participantIds s' = participantIds s"
  using assms
  by (auto simp: computeNetBalance_def allowThis_def makePubliclyDecryptable_def Let_def
      split: if_splits)

lemma transact_cases:
  obtains (reverted) e s' where "exec fhe s c = Revert e s'" "transact fhe s c = s"
  | (succeeded) "exec fhe s c = Success (transact fhe s c)"
  by (cases "exec fhe s c") (auto simp: transact_def)

lemma run_append: "run fhe s (cs @ cs') = run fhe (run fhe s cs) cs'"
  by (induction cs arbitrary: s) auto

lemma appearances_append:
  "appearances fhe s (cs @ cs') = appearances fhe s cs @ appearances fhe (run fhe s cs) cs'"
  by (induction cs arbitrary: s) auto

subsection \<open>The invariant holds in every reachable storage\<close>

lemma ledger_inv_deployed: "ledger_inv deployed"
  by (simp add: ledger_inv_def deployed_def emptyEntry_def)

lemma ledger_inv_recordDebt:
  assumes "ledger_inv s" and "recordDebt fhe s i c d x pr t = Success s'"
  shows "ledger_inv s'"
proof -
  note w = recordDebt_Success [OF assms(2)]
  from w(3) obtain amount where tbl: "debtEntries s' = (debtEntries s)(i := \<lparr>creditor = c, debtor = d,
             encryptedAmount = amount, timestamp = t, decryptedAmount = 0, isVerified = False\<rparr>)"
    by blast
  have "distinct (participantIds s')"
    using assms(1) w(2) by (auto simp: w(5) ledger_inv_def Let_def)
  moreover have "\<forall>j \<in> set (entryIds s'). creditor (debtEntries s' j) \<noteq> debtor (debtEntries s' j)"
    using assms(1) w(2) by (auto simp: w(4) tbl ledger_inv_def)
  moreover have "\<forall>j. isVerified (debtEntries s' j) \<longrightarrow> creditor (debtEntries s' j) \<noteq> []"
    using assms(1) by (auto simp: tbl ledger_inv_def)
  ultimately show ?thesis by (simp add: ledger_inv_def)
qed

lemma ledger_inv_verifyDecryption:
  assumes "ledger_inv s" and "verifyDecryption fhe s i a pr = Success s'"
  shows "ledger_inv s'"
proof -
  note w = verifyDecryption_Success [OF assms(2)]
  from w(3) obtain v where tbl: "debtEntries s' =
      (debtEntries s)(i := (debtEntries s i)\<lparr>decryptedAmount := v, isVerified := True\<rparr>)"
    by blast
  show ?thesis
    using assms(1) w(1) by (auto simp: ledger_inv_def tbl w(4) w(5))
qed

lemma ledger_inv_computeNetBalance:
  assumes "ledger_inv s" and "computeNetBalance fhe s p = Success s'"
  shows "ledger_inv s'"
  using assms(1) computeNetBalance_Success [OF assms(2)] by (simp add: ledger_inv_def)

lemma ledger_inv_transact: "ledger_inv s \<Longrightarrow> ledger_inv (transact fhe s c)"
proof (cases rule: transact_cases [of fhe s c])
  case (reverted e s')
  assume "ledger_inv s"
  then show ?thesis by (simp add: reverted(2))
next
  case succeeded
  assume "ledger_inv s"
  then show ?thesis
    using succeeded
    by (cases c)
      (auto intro: ledger_inv_recordDebt ledger_inv_verifyDecryption ledger_inv_computeNetBalance)
qed

lemma ledger_inv_run: "ledger_inv s \<Longrightarrow> ledger_inv (run fhe s cs)"
  by (induction cs arbitrary: s) (auto intro: ledger_inv_transact)

subsection \<open>The registry and the history\<close>

lemma set_first_seen [simp]: "set (first_seen xs) = set xs"
  by (induction xs rule: first_seen.induct) auto

lemma distinct_first_seen [simp]: "distinct (first_seen xs)"
  by (induction xs rule: first_seen.induct) auto

lemma foldl_push_first_seen:
  "foldl (\<lambda>ps p. if p \<in> set ps then ps else ps @ [p]) R xs
     = R @ first_seen (filter (\<lambda>x. x \<notin> set R) xs)"
proof (induction xs arbitrary: R)
  case Nil
  show ?case by simp
next
  case (Cons x xs)
  show ?case
  proof (cases "x \<in> set R")
    case True
    then show ?thesis by (simp add: Cons.IH)
  next
    case False
    have "filter (\<lambda>y. y \<notin> set (R @ [x])) xs = removeAll x (filter (\<lambda>y. y \<notin> set R) xs)"
      by (induction xs) auto
    with False show ?thesis by (simp add: Cons.IH)
  qed
qed

lemma participantIds_transact:
  "participantIds (transact fhe s c)
     = foldl (\<lambda>ps p. if p \<in> set ps then ps else ps @ [p]) (participantIds s) (appearances fhe s [c])"
proof (cases rule: transact_cases [of fhe s c])
  case (reverted e s')
  then show ?thesis by (cases c) auto
next
  case succeeded
  show ?thesis
  proof (cases c)
    case (RecordDebt i cr db x pr t)
    with succeeded have "recordDebt fhe s i cr db x pr t = Success (transact fhe s c)" by simp
    from recordDebt_Success(5) [OF this] show ?thesis
      using succeeded RecordDebt by (simp add: Let_def)
  next
    case (VerifyDecryption i a pr)
    with succeeded have "verifyDecryption fhe s i a pr = Success (transact fhe s c)" by simp
    from verifyDecryption_Success(5) [OF this] show ?thesis
      using VerifyDecryption by simp
  next
    case (ComputeNetBalance p)
    with succeeded have "computeNetBalance fhe s p = Success (transact fhe s c)" by simp
    from computeNetBalance_Success(4) [OF this] show ?thesis
      using ComputeNetBalance by simp
  qed
qed

lemma participantIds_run:
  "participantIds (run fhe s cs)
     = foldl (\<lambda>ps p. if p \<in> set ps then ps else ps @ [p]) (participantIds s) (appearances fhe s cs)"
proof (induction cs arbitrary: s)
  case Nil
  show ?case by simp
next
  case (Cons c cs)
  have "appearances fhe s (c # cs) = appearances fhe s [c] @ appearances fhe (transact fhe s c) cs"
    by simp
  then show ?case
    by (simp only: run.simps Cons.IH foldl_append participantIds_transact)
qed

lemma participantIds_history:
  "participantIds (run fhe deployed cs) = first_seen (appearances fhe deployed cs)"
  by (simp add: participantIds_run foldl_push_first_seen deployed_def)

subsection \<open>The aggregation loop against the specification's fold\<close>

lemma loop_flag_stays_down:
  "\<not> snd (computeNetBalance_loop fhe tbl p ids (b, False))"
  by (induction ids arbitrary: b) (auto simp: Let_def)

lemma loop_refines:
  assumes "\<forall>i \<in> set ids. creditor (tbl i) \<noteq> debtor (tbl i)"
  shows "(if snd (computeNetBalance_loop fhe tbl p ids (b, f)) then None
          else Some (fst (computeNetBalance_loop fhe tbl p ids (b, f))))
           = fold_contributions fhe p (map tbl ids) (if f then None else Some b)
         \<and> (snd (computeNetBalance_loop fhe tbl p ids (b, f))
              \<longrightarrow> fst (computeNetBalance_loop fhe tbl p ids (b, f)) = b)"
  using assms
proof (induction ids arbitrary: b f)
  case Nil
  show ?case by simp
next
  case (Cons i ids)
  then have ne: "creditor (tbl i) \<noteq> debtor (tbl i)"
    and rest: "\<forall>j \<in> set ids. creditor (tbl j) \<noteq> debtor (tbl j)"
    by simp_all
  note IH = Cons.IH [OF rest]
  show ?case
  proof (cases "creditor (tbl i) = p")
    case True
    with ne have nd: "debtor (tbl i) \<noteq> p" by simp
    show ?thesis
      using True nd
        IH [of "if f then encryptedAmount (tbl i) else FHE_add fhe b (encryptedAmount (tbl i))" False]
      by (cases f) (auto simp: loop_flag_stays_down split: if_splits)
  next
    case False
    show ?thesis
    proof (cases "debtor (tbl i) = p")
      case True
      show ?thesis
        using False True
          IH [of "if f then FHE_sub fhe (FHE_zero fhe) (encryptedAmount (tbl i))
                  else FHE_sub fhe b (encryptedAmount (tbl i))" False]
        by (cases f) (auto simp: loop_flag_stays_down split: if_splits)
    next
      case nd: False
      show ?thesis
        using False nd IH [of b f] by (cases f) (auto simp: loop_flag_stays_down split: if_splits)
    qed
  qed
qed

lemma loop_is_netBalance_spec:
  assumes "ledger_inv s"
  shows "fst (computeNetBalance_loop fhe (debtEntries s) p (entryIds s) (FHE_zero fhe, True))
           = netBalance_spec fhe s p"
proof -
  from assms have "\<forall>i \<in> set (entryIds s). creditor (debtEntries s i) \<noteq> debtor (debtEntries s i)"
    by (simp add: ledger_inv_def)
  from loop_refines [OF this, of fhe p "FHE_zero fhe" True]
  show ?thesis
    by (auto simp: netBalance_spec_def split: if_splits option.splits)
qed


subsection \<open>Verified entries\<close>

lemma verified_kept_transact:
  assumes "ledger_inv s" and "isVerified (debtEntries s i)"
  shows "isVerified (debtEntries (transact fhe s c) i) \<and>
         decryptedAmount (debtEntries (transact fhe s c) i) = decryptedAmount (debtEntries s i)"
proof (cases rule: transact_cases [of fhe s c])
  case (reverted e s')
  with assms(2) show ?thesis by simp
next
  case succeeded
  from assms have cr: "creditor (debtEntries s i) \<noteq> []"
    by (simp add: ledger_inv_def)
  show ?thesis
  proof (cases c)
    case (RecordDebt j cr' db x pr t)
    with succeeded have ok: "recordDebt fhe s j cr' db x pr t = Success (transact fhe s c)" by simp
    from recordDebt_Success(1) [OF ok] cr have "j \<noteq> i" by auto
    with recordDebt_Success(3) [OF ok] assms(2) show ?thesis by auto
  next
    case (VerifyDecryption j a pr)
    with succeeded have ok: "verifyDecryption fhe s j a pr = Success (transact fhe s c)" by simp
    from verifyDecryption_Success(2) [OF ok] assms(2) have "j \<noteq> i" by auto
    with verifyDecryption_Success(3) [OF ok] assms(2) show ?thesis by auto
  next
    case (ComputeNetBalance p)
    with succeeded have ok: "computeNetBalance fhe s p = Success (transact fhe s c)" by simp
    from computeNetBalance_Success(2) [OF ok] assms(2) show ?thesis by simp
  qed
qed

lemma verified_kept_run:
  assumes "ledger_inv s" and "isVerified (debtEntries s i)"
  shows "isVerified (debtEntries (run fhe s cs) i) \<and>
         decryptedAmount (debtEntries (run fhe s cs) i) = decryptedAmount (debtEntries s i)"
  using assms
proof (induction cs arbitrary: s)
  case Nil
  then show ?case by simp
next
  case (Cons c cs)
  from verified_kept_transact [OF Cons.prems]
  have v: "isVerified (debtEntries (transact fhe s c) i)"
    and d: "decryptedAmount (debtEntries (transact fhe s c) i) = decryptedAmount (debtEntries s i)"
    by simp_all
  from Cons.IH [OF ledger_inv_transact [OF Cons.prems(1)] v] d show ?case by simp
qed

lemma verifyDecryption_again:
  assumes "ledger_inv s" and "isVerified (debtEntries s i)"
  shows "verifyDecryption fhe s i a pr = Revert AlreadyVerified s"
  using assms by (simp add: verifyDecryption_def ledger_inv_def)

subsection \<open>Entries stored with a creditor\<close>

text \<open>
  An entry whose stored creditor is not empty is protected by the checks of \<open>recordDebt\<close>:
  its id is refused, and no call changes its parties, its ciphertext or its timestamp.
\<close>

lemma recordDebt_on_stored_creditor:
  "creditor (debtEntries s i) \<noteq> [] \<Longrightarrow> recordDebt fhe s i c d x pr t = Revert DuplicateEntry s"
  by (simp add: recordDebt_def)

lemma stored_creditor_entry_kept:
  assumes "creditor (debtEntries s i) \<noteq> []"
  shows "creditor (debtEntries (transact fhe s c) i) = creditor (debtEntries s i) \<and>
         debtor (debtEntries (transact fhe s c) i) = debtor (debtEntries s i) \<and>
         encryptedAmount (debtEntries (transact fhe s c) i) = encryptedAmount (debtEntries s i) \<and>
         timestamp (debtEntries (transact fhe s c) i) = timestamp (debtEntries s i)"
proof (cases rule: transact_cases [of fhe s c])
  case (reverted e s')
  then show ?thesis by simp
next
  case succeeded
  show ?thesis
  proof (cases c)
    case (RecordDebt j cr db x pr t)
    with succeeded have ok: "recordDebt fhe s j cr db x pr t = Success (transact fhe s c)" by simp
    from recordDebt_Success(1) [OF ok] assms have "j \<noteq> i" by auto
    with recordDebt_Success(3) [OF ok] show ?thesis by auto
  next
    case (VerifyDecryption j a pr)
    with succeeded have ok: "verifyDecryption fhe s j a pr = Success (transact fhe s c)" by simp
    from verifyDecryption_Success(3) [OF ok] show ?thesis by auto
  next
    case (ComputeNetBalance p)
    with succeeded have ok: "computeNetBalance fhe s p = Success (transact fhe s c)" by simp
    from computeNetBalance_Success(2) [OF ok] show ?thesis by simp
  qed
qed

lemma sequences_only_grow:
  "(\<exists>ids. entryIds (transact fhe s c) = entryIds s @ ids) \<and>
   (\<exists>ps. participantIds (transact fhe s c) = participantIds s @ ps)"
proof (cases rule: transact_cases [of fhe s c])
  case (reverted e s')
  then show ?thesis by simp
next
  case succeeded
  show ?thesis
  proof (cases c)
    case (RecordDebt j cr db x pr t)
    with succeeded have ok: "recordDebt fhe s j cr db x pr t = Success (transact fhe s c)" by simp
    from recordDebt_Success(4) [OF ok] recordDebt_Success(5) [OF ok] show ?thesis
      by (auto simp: Let_def)
  next
    case (VerifyDecryption j a pr)
    with succeeded have ok: "verifyDecryption fhe s j a pr = Success (transact fhe s c)" by simp
    from verifyDecryption_Success(4) [OF ok] verifyDecryption_Success(5) [OF ok] show ?thesis
      by simp
  next
    case (ComputeNetBalance p)
    with succeeded have ok: "computeNetBalance fhe s p = Success (transact fhe s c)" by simp
    from computeNetBalance_Success(3) [OF ok] computeNetBalance_Success(4) [OF ok] show ?thesis
      by simp
  qed
qed

lemma recordDebt_then_getDebtEntry:
  assumes "recordDebt fhe s i c d x pr t = Success s'" and "c \<noteq> []"
  shows "getDebtEntry s' i = Inr (c, d, t, False, 0)"
  using recordDebt_Success(3) [OF assms(1)] assms(2)
  by (auto simp: getDebtEntry_def Let_def)

subsection \<open>Ids outside the entry log\<close>

text \<open>Under an id that is not in the entry log nothing was ever written.\<close>

lemma unlogged_empty_transact:
  assumes "\<forall>i. i \<notin> set (entryIds s) \<longrightarrow> debtEntries s i = emptyEntry"
  shows "\<forall>i. i \<notin> set (entryIds (transact fhe s c)) \<longrightarrow> debtEntries (transact fhe s c) i = emptyEntry"
proof (cases rule: transact_cases [of fhe s c])
  case (reverted e s')
  with assms show ?thesis by simp
next
  case succeeded
  show ?thesis
  proof (cases c)
    case (RecordDebt j cr db x pr t)
    with succeeded have ok: "recordDebt fhe s j cr db x pr t = Success (transact fhe s c)" by simp
    from recordDebt_Success(3) [OF ok] recordDebt_Success(4) [OF ok] assms show ?thesis by auto
  next
    case (VerifyDecryption j a pr)
    with succeeded have ok: "verifyDecryption fhe s j a pr = Success (transact fhe s c)" by simp
    from verifyDecryption_Success(1) [OF ok] assms have "j \<in> set (entryIds s)"
      by (auto simp: emptyEntry_def)
    with verifyDecryption_Success(3) [OF ok] verifyDecryption_Success(4) [OF ok] assms
    show ?thesis by auto
  next
    case (ComputeNetBalance p)
    with succeeded have ok: "computeNetBalance fhe s p = Success (transact fhe s c)" by simp
    from computeNetBalance_Success(2) [OF ok] computeNetBalance_Success(3) [OF ok] assms
    show ?thesis by simp
  qed
qed

lemma unlogged_empty_run:
  assumes "\<forall>i. i \<notin> set (entryIds s) \<longrightarrow> debtEntries s i = emptyEntry"
  shows "\<forall>i. i \<notin> set (entryIds (run fhe s cs)) \<longrightarrow> debtEntries (run fhe s cs) i = emptyEntry"
  using assms
proof (induction cs arbitrary: s)
  case Nil
  then show ?case by simp
next
  case (Cons c cs)
  from Cons.IH [OF unlogged_empty_transact [OF Cons.prems]] show ?case by simp
qed

lemma unlogged_empty_history:
  "i \<notin> set (entryIds (run fhe deployed cs)) \<Longrightarrow> debtEntries (run fhe deployed cs) i = emptyEntry"
proof -
  have "\<forall>i. i \<notin> set (entryIds deployed) \<longrightarrow> debtEntries deployed i = emptyEntry"
    by (simp add: deployed_def)
  from unlogged_empty_run [OF this] show "i \<notin> set (entryIds (run fhe deployed cs)) \<Longrightarrow>
      debtEntries (run fhe deployed cs) i = emptyEntry"
    by blast
qed

section \<open>The claims\<close>

text \<open>
  C1. In the storage reached by any history of calls, \<open>computeNetBalance\<close> fails with
  \<open>NotFound\<close> for a participant that no recorded entry names. For a participant that some
  recorded entry names it succeeds: the balance it stores for the participant is the fold of the
  specification over the entry log, read once in log order (a creditor entry sets or adds, a
  debtor entry subtracts from zero or from the accumulator, other entries are skipped), and it
  emits \<open>NetBalanceUpdated\<close> with that balance.
\<close>

theorem computeNetBalance_folds_entry_log:
  assumes "s = run fhe deployed cs"
  shows "(p \<notin> set (appearances fhe deployed cs) \<longrightarrow>
            computeNetBalance fhe s p = Revert NotFound s) \<and>
         (p \<in> set (appearances fhe deployed cs) \<longrightarrow>
            computeNetBalance fhe s p = Success (s\<lparr>
              netBalances := (netBalances s)(p := netBalance_spec fhe s p),
              aclAllowedThis := insert (netBalance_spec fhe s p) (aclAllowedThis s),
              aclPubliclyDecryptable := insert (netBalance_spec fhe s p) (aclPubliclyDecryptable s),
              eventLog := eventLog s @ [NetBalanceUpdated p (netBalance_spec fhe s p)]\<rparr>))"
proof -
  have reg: "set (participantIds s) = set (appearances fhe deployed cs)"
    by (simp add: assms participantIds_history)
  have "ledger_inv s"
    by (simp add: assms ledger_inv_run ledger_inv_deployed)
  then have bal: "fst (computeNetBalance_loop fhe (debtEntries s) p (entryIds s) (FHE_zero fhe, True))
           = netBalance_spec fhe s p"
    by (rule loop_is_netBalance_spec)
  show ?thesis
    by (simp add: computeNetBalance_def reg bal allowThis_def makePubliclyDecryptable_def Let_def)
qed

lemma sample_history_appearances:
  "appearances testFHE deployed sample_history
     = [''alice'', ''bob'', ''bob'', ''carol'', ''carol'', ''bob'']"
  by (simp add: sample_history_def test_defs)

lemma sample_history_netBalance:
  "netBalance_spec testFHE (run testFHE deployed sample_history) ''bob'' = 3665"
  by (simp add: sample_history_def test_defs netBalance_spec_def)

theorem computeNetBalance_folds_entry_log_witness:
  "''bob'' \<in> set (appearances testFHE deployed sample_history) \<and>
   ''dave'' \<notin> set (appearances testFHE deployed sample_history) \<and>
   netBalances (transact testFHE (run testFHE deployed sample_history) (ComputeNetBalance ''bob''))
     ''bob'' = 3665 \<and>
   computeNetBalance testFHE (run testFHE deployed sample_history) ''dave''
     = Revert NotFound (run testFHE deployed sample_history)"
  using computeNetBalance_folds_entry_log [of "run testFHE deployed sample_history" testFHE
      sample_history "''bob''"]
    computeNetBalance_folds_entry_log [of "run testFHE deployed sample_history" testFHE
      sample_history "''dave''"]
  by (simp add: sample_history_appearances sample_history_netBalance transact_def)

text \<open>
  C2. Once an entry is verified, no history of calls returns it to unverified or changes its
  decrypted amount, and every later \<open>verifyDecryption\<close> on it fails with \<open>AlreadyVerified\<close>
  in a storage it leaves as it is. So \<open>verifyDecryption\<close> succeeds at most once on an entry:
  after a first success, whatever calls follow, a further call fails.
\<close>

theorem verification_is_final:
  assumes "s = run fhe deployed cs"
  shows "(verifyDecryption fhe s i a pr = Success s1 \<longrightarrow>
            verifyDecryption fhe (run fhe s1 cs') i a' pr' = Revert AlreadyVerified (run fhe s1 cs') \<and>
            isVerified (debtEntries (run fhe s1 cs') i) \<and>
            decryptedAmount (debtEntries (run fhe s1 cs') i) = decryptedAmount (debtEntries s1 i)) \<and>
         (isVerified (debtEntries s i) \<longrightarrow>
            verifyDecryption fhe (run fhe s cs') i a' pr' = Revert AlreadyVerified (run fhe s cs') \<and>
            isVerified (debtEntries (run fhe s cs') i) \<and>
            decryptedAmount (debtEntries (run fhe s cs') i) = decryptedAmount (debtEntries s i))"
proof -
  have inv: "ledger_inv s"
    by (simp add: assms ledger_inv_run ledger_inv_deployed)
  have later: "verifyDecryption fhe (run fhe t cs') i a' pr' = Revert AlreadyVerified (run fhe t cs') \<and>
            isVerified (debtEntries (run fhe t cs') i) \<and>
            decryptedAmount (debtEntries (run fhe t cs') i) = decryptedAmount (debtEntries t i)"
    if "ledger_inv t" and "isVerified (debtEntries t i)" for t
    using verified_kept_run [OF that] verifyDecryption_again [OF ledger_inv_run [OF that(1)]]
    by simp
  have "ledger_inv s1 \<and> isVerified (debtEntries s1 i)"
    if ok: "verifyDecryption fhe s i a pr = Success s1"
    using ledger_inv_verifyDecryption [OF inv ok] verifyDecryption_Success(3) [OF ok] by auto
  with later [of s1] later [OF inv] show ?thesis by blast
qed

lemma after_verification:
  "debtEntries (run testFHE deployed
      [RecordDebt ''e1'' ''alice'' ''bob'' 5 [1] 100,
       VerifyDecryption ''e1'' (replicate 31 0 @ [42]) [1]]) ''e1''
   = \<lparr>creditor = ''alice'', debtor = ''bob'', encryptedAmount = 5, timestamp = 100,
      decryptedAmount = 42, isVerified = True\<rparr>"
  by (simp add: test_defs abi_decode_42)

theorem verification_is_final_witness:
  "verifyDecryption testFHE (run testFHE deployed [RecordDebt ''e1'' ''alice'' ''bob'' 5 [1] 100])
      ''e1'' (replicate 31 0 @ [42]) [1]
     = Success (run testFHE deployed [RecordDebt ''e1'' ''alice'' ''bob'' 5 [1] 100,
                  VerifyDecryption ''e1'' (replicate 31 0 @ [42]) [1]]) \<and>
   verifyDecryption testFHE
      (run testFHE deployed [RecordDebt ''e1'' ''alice'' ''bob'' 5 [1] 100,
         VerifyDecryption ''e1'' (replicate 31 0 @ [42]) [1],
         RecordDebt ''e1'' ''carol'' ''dave'' 6 [1] 200])
      ''e1'' (replicate 31 0 @ [43]) [1]
     = Revert AlreadyVerified
        (run testFHE deployed [RecordDebt ''e1'' ''alice'' ''bob'' 5 [1] 100,
           VerifyDecryption ''e1'' (replicate 31 0 @ [42]) [1],
           RecordDebt ''e1'' ''carol'' ''dave'' 6 [1] 200]) \<and>
   decryptedAmount (debtEntries
      (run testFHE deployed [RecordDebt ''e1'' ''alice'' ''bob'' 5 [1] 100,
         VerifyDecryption ''e1'' (replicate 31 0 @ [42]) [1],
         RecordDebt ''e1'' ''carol'' ''dave'' 6 [1] 200]) ''e1'') = 42"
proof -
  let ?s = "run testFHE deployed [RecordDebt ''e1'' ''alice'' ''bob'' 5 [1] 100]"
  let ?s1 = "run testFHE deployed [RecordDebt ''e1'' ''alice'' ''bob'' 5 [1] 100,
                  VerifyDecryption ''e1'' (replicate 31 0 @ [42]) [1]]"
  have first: "verifyDecryption testFHE ?s ''e1'' (replicate 31 0 @ [42]) [1] = Success ?s1"
    by (simp add: test_defs abi_decode_42)
  have run: "run testFHE ?s1 [RecordDebt ''e1'' ''carol'' ''dave'' 6 [1] 200]
      = run testFHE deployed [RecordDebt ''e1'' ''alice'' ''bob'' 5 [1] 100,
         VerifyDecryption ''e1'' (replicate 31 0 @ [42]) [1],
         RecordDebt ''e1'' ''carol'' ''dave'' 6 [1] 200]"
    by simp
  from verification_is_final [of ?s testFHE "[RecordDebt ''e1'' ''alice'' ''bob'' 5 [1] 100]"
      "''e1''" "replicate 31 0 @ [42]" "[1]" ?s1 "[RecordDebt ''e1'' ''carol'' ''dave'' 6 [1] 200]"
      "replicate 31 0 @ [43]" "[1]"] first
  have "verifyDecryption testFHE (run testFHE ?s1 [RecordDebt ''e1'' ''carol'' ''dave'' 6 [1] 200])
          ''e1'' (replicate 31 0 @ [43]) [1]
        = Revert AlreadyVerified (run testFHE ?s1 [RecordDebt ''e1'' ''carol'' ''dave'' 6 [1] 200])"
    and "decryptedAmount (debtEntries (run testFHE ?s1 [RecordDebt ''e1'' ''carol'' ''dave'' 6 [1] 200]) ''e1'')
        = decryptedAmount (debtEntries ?s1 ''e1'')"
    by blast+
  then show ?thesis
    using first by (simp only: run after_verification DebtEntry.simps)
qed

text \<open>
  C3. The code departs from the claim: an entry recorded with the empty string as creditor
  passes for absent, so a second \<open>recordDebt\<close> on its id replaces its debtor, its ciphertext
  and its timestamp, and the id stands twice in the entry log.
\<close>

theorem stored_entry_overwritten:
  "debtEntries (run testFHE deployed [RecordDebt ''e1'' [] ''bob'' 5 [1] 100]) ''e1''
     = \<lparr>creditor = [], debtor = ''bob'', encryptedAmount = 5, timestamp = 100,
        decryptedAmount = 0, isVerified = False\<rparr> \<and>
   debtEntries (run testFHE deployed [RecordDebt ''e1'' [] ''bob'' 5 [1] 100,
                  RecordDebt ''e1'' [] ''carol'' 6 [1] 200]) ''e1''
     = \<lparr>creditor = [], debtor = ''carol'', encryptedAmount = 6, timestamp = 200,
        decryptedAmount = 0, isVerified = False\<rparr> \<and>
   entryIds (run testFHE deployed [RecordDebt ''e1'' [] ''bob'' 5 [1] 100,
                  RecordDebt ''e1'' [] ''carol'' 6 [1] 200]) = [''e1'', ''e1'']"
  by (simp add: test_defs)

text \<open>
  C4. Whenever \<open>recordDebt\<close>, \<open>verifyDecryption\<close> or \<open>computeNetBalance\<close> fails, whatever the
  error, no write has been made when the check fails: the storage at the failure is the storage
  at the call (entry table, entry log, registry, balance table, permissions, event log), and it
  is the storage after the transaction.
\<close>

theorem errors_leave_state_unchanged:
  "exec fhe s c = Revert e s' \<Longrightarrow> s' = s \<and> transact fhe s c = s"
  by (cases c)
    (auto simp: transact_def recordDebt_def verifyDecryption_def computeNetBalance_def Let_def
      split: if_splits option.splits)

theorem errors_leave_state_unchanged_witness:
  "exec testFHE (run testFHE deployed sample_history) (RecordDebt ''e4'' ''alice'' ''bob'' 5 [] 400)
     = Revert InvalidCiphertext (run testFHE deployed sample_history) \<and>
   transact testFHE (run testFHE deployed sample_history) (RecordDebt ''e4'' ''alice'' ''bob'' 5 [] 400)
     = run testFHE deployed sample_history"
proof -
  have "exec testFHE (run testFHE deployed sample_history) (RecordDebt ''e4'' ''alice'' ''bob'' 5 [] 400)
     = Revert InvalidCiphertext (run testFHE deployed sample_history)"
    by (simp add: sample_history_def test_defs)
  from this errors_leave_state_unchanged [OF this] show ?thesis by simp
qed

text \<open>
  C5. The code departs from the claim: after an entry is recorded under an id with the empty
  string as creditor, a second \<open>recordDebt\<close> with the same id does not fail with
  \<open>DuplicateEntry\<close>; it succeeds and the first entry is replaced.
\<close>

theorem duplicate_id_accepted:
  "entryIds (transact testFHE deployed (RecordDebt ''e1'' [] ''bob'' 5 [1] 100)) = [''e1''] \<and>
   recordDebt testFHE (transact testFHE deployed (RecordDebt ''e1'' [] ''bob'' 5 [1] 100))
       ''e1'' ''alice'' ''carol'' 6 [1] 200
     = Success (transact testFHE (transact testFHE deployed (RecordDebt ''e1'' [] ''bob'' 5 [1] 100))
                  (RecordDebt ''e1'' ''alice'' ''carol'' 6 [1] 200)) \<and>
   debtor (debtEntries (transact testFHE deployed (RecordDebt ''e1'' [] ''bob'' 5 [1] 100)) ''e1'')
     = ''bob'' \<and>
   debtor (debtEntries
       (transact testFHE (transact testFHE deployed (RecordDebt ''e1'' [] ''bob'' 5 [1] 100))
          (RecordDebt ''e1'' ''alice'' ''carol'' 6 [1] 200)) ''e1'')
     = ''carol''"
  by (simp add: test_defs)

text \<open>
  C6, as the claim states it, is false: for an entry id that is already present,
  \<open>recordDebt\<close> with the creditor equal to the debtor fails with \<open>DuplicateEntry\<close>, the first
  check of the function, not with \<open>SelfDebt\<close>.
\<close>

theorem selfDebt_on_existing_id_counterexample:
  "recordDebt testFHE (transact testFHE deployed (RecordDebt ''e1'' ''alice'' ''bob'' 5 [1] 100))
      ''e1'' ''carol'' ''carol'' 6 [1] 200
     = Revert DuplicateEntry (transact testFHE deployed (RecordDebt ''e1'' ''alice'' ''bob'' 5 [1] 100)) \<and>
   recordDebt testFHE (transact testFHE deployed (RecordDebt ''e1'' ''alice'' ''bob'' 5 [1] 100))
      ''e1'' ''carol'' ''carol'' 6 [1] 200
     \<noteq> Revert SelfDebt (transact testFHE deployed (RecordDebt ''e1'' ''alice'' ''bob'' 5 [1] 100))"
  by (simp add: test_defs)

text \<open>
  C6, amended. In the storage reached by any history of calls, when the creditor equals the
  debtor \<open>recordDebt\<close> fails, with \<open>SelfDebt\<close> or with \<open>DuplicateEntry\<close>, and writes nothing: the
  entry table, the registry, the entry log and the rest of the storage are as they were. It
  fails with \<open>SelfDebt\<close> when the entry id was never recorded (it is not in the entry log), and
  with \<open>DuplicateEntry\<close>, the earlier check, when an entry with a creditor that is not empty is
  stored under the id.
\<close>

theorem selfDebt_rejected:
  assumes "s = run fhe deployed cs" and "creditorId = debtorId"
  shows "(recordDebt fhe s entryId creditorId debtorId extAmount inputProof now = Revert SelfDebt s \<or>
          recordDebt fhe s entryId creditorId debtorId extAmount inputProof now = Revert DuplicateEntry s) \<and>
         transact fhe s (RecordDebt entryId creditorId debtorId extAmount inputProof now) = s \<and>
         (entryId \<notin> set (entryIds s) \<longrightarrow>
            recordDebt fhe s entryId creditorId debtorId extAmount inputProof now = Revert SelfDebt s) \<and>
         (creditor (debtEntries s entryId) \<noteq> [] \<longrightarrow>
            recordDebt fhe s entryId creditorId debtorId extAmount inputProof now
              = Revert DuplicateEntry s)"
proof -
  have fresh: "creditor (debtEntries s entryId) = []" if "entryId \<notin> set (entryIds s)"
    using unlogged_empty_history [of entryId fhe cs] that
    by (simp add: assms(1) emptyEntry_def)
  have r: "recordDebt fhe s entryId creditorId debtorId extAmount inputProof now
     = Revert (if creditor (debtEntries s entryId) = [] then SelfDebt else DuplicateEntry) s"
    using assms(2) by (simp add: recordDebt_def)
  have t: "transact fhe s (RecordDebt entryId creditorId debtorId extAmount inputProof now) = s"
    by (simp add: transact_def r)
  from r t fresh show ?thesis by auto
qed

theorem selfDebt_rejected_witness:
  "''e1'' \<notin> set (entryIds (run testFHE deployed [])) \<and>
   recordDebt testFHE (run testFHE deployed []) ''e1'' ''alice'' ''alice'' 5 [1] 100
     = Revert SelfDebt (run testFHE deployed []) \<and>
   creditor (debtEntries (run testFHE deployed [RecordDebt ''e1'' ''alice'' ''bob'' 5 [1] 100]) ''e1'')
     \<noteq> [] \<and>
   recordDebt testFHE (run testFHE deployed [RecordDebt ''e1'' ''alice'' ''bob'' 5 [1] 100])
       ''e1'' ''dave'' ''dave'' 6 [1] 200
     = Revert DuplicateEntry (run testFHE deployed [RecordDebt ''e1'' ''alice'' ''bob'' 5 [1] 100]) \<and>
   transact testFHE (run testFHE deployed [RecordDebt ''e1'' ''alice'' ''bob'' 5 [1] 100])
       (RecordDebt ''e1'' ''dave'' ''dave'' 6 [1] 200)
     = run testFHE deployed [RecordDebt ''e1'' ''alice'' ''bob'' 5 [1] 100]"
proof -
  have fresh: "''e1'' \<notin> set (entryIds (run testFHE deployed []))"
    by (simp add: deployed_def)
  have stored: "creditor (debtEntries (run testFHE deployed
      [RecordDebt ''e1'' ''alice'' ''bob'' 5 [1] 100]) ''e1'') \<noteq> []"
    by (simp add: test_defs)
  from selfDebt_rejected [where fhe = testFHE and cs = "[]" and creditorId = "''alice''"
      and entryId = "''e1''" and extAmount = 5 and inputProof = "[1]" and now = 100, OF refl refl]
    selfDebt_rejected [where fhe = testFHE and cs = "[RecordDebt ''e1'' ''alice'' ''bob'' 5 [1] 100]"
      and creditorId = "''dave''" and entryId = "''e1''" and extAmount = 6 and inputProof = "[1]"
      and now = 200, OF refl refl]
    fresh stored
  show ?thesis by blast
qed

text \<open>
  C7. The code departs from the claim: a \<open>recordDebt\<close> with the empty string as creditor
  succeeds and logs the id, and the \<open>getDebtEntry\<close> that follows fails with \<open>NotFound\<close>
  instead of returning the entry.
\<close>

theorem recorded_entry_not_found:
  "recordDebt testFHE deployed ''e1'' [] ''bob'' 5 [1] 100
     = Success (transact testFHE deployed (RecordDebt ''e1'' [] ''bob'' 5 [1] 100)) \<and>
   getAllEntryIds (transact testFHE deployed (RecordDebt ''e1'' [] ''bob'' 5 [1] 100)) = [''e1''] \<and>
   getDebtEntry (transact testFHE deployed (RecordDebt ''e1'' [] ''bob'' 5 [1] 100)) ''e1''
     = Inl NotFound"
  by (simp add: test_defs getDebtEntry_def getAllEntryIds_def)

text \<open>
  C8. In the storage reached by any history of calls, \<open>getAllParticipantIds\<close> has no duplicates
  and lists the identifiers in the order of their first appearance as creditor or debtor of a
  recorded entry, the creditor of an entry before its debtor. After
  \<open>recordDebt("e1","alice","bob",...)\<close> and \<open>recordDebt("e2","bob","carol",...)\<close>, both with
  accepted ciphertexts, it returns alice, bob, carol.
\<close>

theorem registry_in_first_seen_order:
  "distinct (getAllParticipantIds (run fhe deployed cs)) \<and>
   getAllParticipantIds (run fhe deployed cs) = first_seen (appearances fhe deployed cs) \<and>
   (FHE_fromExternal fhe x1 pr1 = Some a1 \<and> FHE_isInitialized fhe a1 \<and>
    FHE_fromExternal fhe x2 pr2 = Some a2 \<and> FHE_isInitialized fhe a2 \<longrightarrow>
      getAllParticipantIds (run fhe deployed
        [RecordDebt ''e1'' ''alice'' ''bob'' x1 pr1 t1, RecordDebt ''e2'' ''bob'' ''carol'' x2 pr2 t2])
      = [''alice'', ''bob'', ''carol''])"
proof -
  have "FHE_fromExternal fhe x1 pr1 = Some a1 \<and> FHE_isInitialized fhe a1 \<and>
    FHE_fromExternal fhe x2 pr2 = Some a2 \<and> FHE_isInitialized fhe a2 \<longrightarrow>
      participantIds (run fhe deployed
        [RecordDebt ''e1'' ''alice'' ''bob'' x1 pr1 t1, RecordDebt ''e2'' ''bob'' ''carol'' x2 pr2 t2])
      = [''alice'', ''bob'', ''carol'']"
    by (simp add: contract_defs deployed_def emptyEntry_def)
  then show ?thesis
    by (simp add: getAllParticipantIds_def participantIds_history)
qed

theorem registry_in_first_seen_order_witness:
  "FHE_fromExternal testFHE 5 [1] = Some 5 \<and> FHE_isInitialized testFHE 5 \<and>
   FHE_fromExternal testFHE 7 [1] = Some 7 \<and> FHE_isInitialized testFHE 7 \<and>
   getAllParticipantIds (run testFHE deployed
     [RecordDebt ''e1'' ''alice'' ''bob'' 5 [1] 100, RecordDebt ''e2'' ''bob'' ''carol'' 7 [1] 200])
     = [''alice'', ''bob'', ''carol''] \<and>
   getAllParticipantIds (run testFHE deployed sample_history)
     = first_seen [''alice'', ''bob'', ''bob'', ''carol'', ''carol'', ''bob'']"
proof -
  have h: "FHE_fromExternal testFHE 5 [1] = Some 5 \<and> FHE_isInitialized testFHE 5 \<and>
      FHE_fromExternal testFHE 7 [1] = Some 7 \<and> FHE_isInitialized testFHE 7"
    by (simp add: testFHE_def)
  from registry_in_first_seen_order [of testFHE sample_history 5 "[1]" 5 7 "[1]" 7 100 200] h
  show ?thesis
    by (simp only: sample_history_appearances)
qed

text \<open>
  C9. After a successful \<open>computeNetBalance\<close> for a participant, a second call for the same
  participant on the resulting storage succeeds and stores the same balance ciphertext: it
  changes nothing but the event log, where it emits the same balance again.
\<close>

theorem computeNetBalance_idempotent:
  "computeNetBalance fhe s p = Success s1 \<Longrightarrow>
   computeNetBalance fhe s1 p
     = Success (s1\<lparr>eventLog := eventLog s1 @ [NetBalanceUpdated p (netBalances s1 p)]\<rparr>) \<and>
   netBalances (transact fhe s1 (ComputeNetBalance p)) p = netBalances s1 p"
  by (auto simp: computeNetBalance_def transact_def allowThis_def makePubliclyDecryptable_def
      Let_def insert_absorb split: if_splits)

lemma sample_history_bob_balance:
  "computeNetBalance testFHE (run testFHE deployed sample_history) ''bob''
     = Success (transact testFHE (run testFHE deployed sample_history) (ComputeNetBalance ''bob''))"
  by (simp add: sample_history_def test_defs)

theorem computeNetBalance_idempotent_witness:
  "computeNetBalance testFHE (run testFHE deployed sample_history) ''bob''
     = Success (transact testFHE (run testFHE deployed sample_history) (ComputeNetBalance ''bob'')) \<and>
   netBalances (run testFHE deployed (sample_history @ [ComputeNetBalance ''bob'', ComputeNetBalance ''bob'']))
     ''bob''
     = netBalances (run testFHE deployed (sample_history @ [ComputeNetBalance ''bob''])) ''bob''"
  using sample_history_bob_balance
    computeNetBalance_idempotent [OF sample_history_bob_balance]
  by (simp add: run_append)

text \<open>
  C10. An entry exists for the public interface exactly when the creditor stored under its id
  is not empty: \<open>getDebtEntry\<close> and \<open>verifyDecryption\<close> fail with \<open>NotFound\<close>, and
  \<open>recordDebt\<close> does not fail with \<open>DuplicateEntry\<close>, exactly on an empty stored creditor. So a
  \<open>recordDebt\<close> with the empty string as creditor (and another debtor) on a fresh id succeeds
  and appends the id to the entry log, yet \<open>getDebtEntry\<close> and \<open>verifyDecryption\<close> on that id
  fail with \<open>NotFound\<close>, and a later \<open>recordDebt\<close> on the same id overwrites the stored entry
  and appends the id to the log a second time.
\<close>

theorem existence_is_nonempty_creditor:
  assumes "creditor (debtEntries s entryId) = []" and "debtorId \<noteq> []"
    and "FHE_fromExternal fhe x pr = Some amount" and "FHE_isInitialized fhe amount"
    and "s1 = transact fhe s (RecordDebt entryId [] debtorId x pr now)"
    and "s2 = transact fhe s1 (RecordDebt entryId c2 d2 x2 pr2 now2)"
  shows "(getDebtEntry t j = Inl NotFound \<longleftrightarrow> creditor (debtEntries t j) = []) \<and>
         (verifyDecryption fhe t j a dpr = Revert NotFound t \<longleftrightarrow> creditor (debtEntries t j) = []) \<and>
         (recordDebt fhe t j c d x' pr' now' = Revert DuplicateEntry t
            \<longleftrightarrow> creditor (debtEntries t j) \<noteq> []) \<and>
         recordDebt fhe s entryId [] debtorId x pr now = Success s1 \<and>
         entryIds s1 = entryIds s @ [entryId] \<and>
         getDebtEntry s1 entryId = Inl NotFound \<and>
         verifyDecryption fhe s1 entryId a dpr = Revert NotFound s1 \<and>
         recordDebt fhe s1 entryId c2 d2 x2 pr2 now2 \<noteq> Revert DuplicateEntry s' \<and>
         (c2 \<noteq> d2 \<and> FHE_fromExternal fhe x2 pr2 = Some amount2 \<and> FHE_isInitialized fhe amount2 \<longrightarrow>
            recordDebt fhe s1 entryId c2 d2 x2 pr2 now2 = Success s2 \<and>
            debtEntries s2 entryId = \<lparr>creditor = c2, debtor = d2, encryptedAmount = amount2,
              timestamp = now2, decryptedAmount = 0, isVerified = False\<rparr> \<and>
            entryIds s2 = entryIds s @ [entryId, entryId])"
proof -
  have g: "getDebtEntry t j = Inl NotFound \<longleftrightarrow> creditor (debtEntries t j) = []"
    by (simp add: getDebtEntry_def Let_def)
  have v: "verifyDecryption fhe t j a dpr = Revert NotFound t \<longleftrightarrow> creditor (debtEntries t j) = []"
    by (auto simp: verifyDecryption_def Let_def split: option.splits)
  have r: "recordDebt fhe t j c d x' pr' now' = Revert DuplicateEntry t
            \<longleftrightarrow> creditor (debtEntries t j) \<noteq> []"
    by (auto simp: recordDebt_def Let_def split: option.splits)
  have first: "recordDebt fhe s entryId [] debtorId x pr now = Success s1"
    using assms(1-5) by (simp add: recordDebt_def transact_def Let_def)
  note w = recordDebt_Success [OF first]
  from w(3) assms(3) have e1: "creditor (debtEntries s1 entryId) = []" by auto
  have nf: "getDebtEntry s1 entryId = Inl NotFound"
    "verifyDecryption fhe s1 entryId a dpr = Revert NotFound s1"
    using e1 by (simp_all add: getDebtEntry_def verifyDecryption_def Let_def)
  have nodup: "recordDebt fhe s1 entryId c2 d2 x2 pr2 now2 \<noteq> Revert DuplicateEntry s'"
    using e1 by (auto simp: recordDebt_def Let_def split: option.splits)
  have second: "recordDebt fhe s1 entryId c2 d2 x2 pr2 now2 = Success s2 \<and>
            debtEntries s2 entryId = \<lparr>creditor = c2, debtor = d2, encryptedAmount = amount2,
              timestamp = now2, decryptedAmount = 0, isVerified = False\<rparr> \<and>
            entryIds s2 = entryIds s @ [entryId, entryId]"
    if h: "c2 \<noteq> d2" "FHE_fromExternal fhe x2 pr2 = Some amount2" "FHE_isInitialized fhe amount2"
  proof -
    have ok: "recordDebt fhe s1 entryId c2 d2 x2 pr2 now2 = Success s2"
      using e1 h assms(6) by (simp add: recordDebt_def transact_def Let_def)
    from recordDebt_Success(3) [OF ok] recordDebt_Success(4) [OF ok] h(2) w(4) ok
    show ?thesis by auto
  qed
  from g v r first w(4) nf nodup second show ?thesis by blast
qed

theorem existence_is_nonempty_creditor_witness:
  "creditor (debtEntries deployed ''e1'') = [] \<and> ''bob'' \<noteq> [] \<and>
   FHE_fromExternal testFHE 5 [1] = Some 5 \<and> FHE_isInitialized testFHE 5 \<and>
   ''alice'' \<noteq> ''carol'' \<and> FHE_fromExternal testFHE 6 [1] = Some 6 \<and> FHE_isInitialized testFHE 6 \<and>
   recordDebt testFHE deployed ''e1'' [] ''bob'' 5 [1] 100
     = Success (run testFHE deployed [RecordDebt ''e1'' [] ''bob'' 5 [1] 100]) \<and>
   getDebtEntry (run testFHE deployed [RecordDebt ''e1'' [] ''bob'' 5 [1] 100]) ''e1'' = Inl NotFound \<and>
   recordDebt testFHE (run testFHE deployed [RecordDebt ''e1'' [] ''bob'' 5 [1] 100])
       ''e1'' ''alice'' ''carol'' 6 [1] 200
     = Success (run testFHE deployed [RecordDebt ''e1'' [] ''bob'' 5 [1] 100,
                  RecordDebt ''e1'' ''alice'' ''carol'' 6 [1] 200]) \<and>
   entryIds (run testFHE deployed [RecordDebt ''e1'' [] ''bob'' 5 [1] 100,
                  RecordDebt ''e1'' ''alice'' ''carol'' 6 [1] 200]) = [''e1'', ''e1'']"
proof -
  have h: "creditor (debtEntries deployed ''e1'') = []" "''bob'' \<noteq> []"
    "FHE_fromExternal testFHE 5 [1] = Some 5" "FHE_isInitialized testFHE 5"
    and h2: "''alice'' \<noteq> ''carol'' \<and> FHE_fromExternal testFHE 6 [1] = Some 6 \<and>
      FHE_isInitialized testFHE 6"
    and e: "entryIds deployed = []"
    by (simp_all add: deployed_def emptyEntry_def testFHE_def)
  from existence_is_nonempty_creditor [where fhe = testFHE and s = deployed and entryId = "''e1''"
      and debtorId = "''bob''" and x = 5 and pr = "[1]" and amount = 5 and now = 100
      and ?c2.0 = "''alice''" and ?d2.0 = "''carol''" and ?x2.0 = 6 and ?pr2.0 = "[1]" and ?now2.0 = 200
      and ?amount2.0 = 6, OF h refl refl]
    h h2 e
  show ?thesis by simp
qed

end
